theory Spec2Isabelle
  imports Complex_Main "HOL-Library.Word" "HOL-Library.Sublist"
begin

section \<open>Strings of the host language\<close>

text \<open>
  A JavaScript string is a sequence of 16-bit code units. Literals of the source are
  written with \<open>lit\<close>, which maps each ASCII character to its code unit.
\<close>

type_synonym unit16 = "16 word"
type_synonym ustring = "unit16 list"

definition lit :: "string \<Rightarrow> ustring" where
  "lit s = map (\<lambda>c. of_nat (of_char c)) s"

definition LF :: unit16 where "LF = 0x0A"
definition CR :: unit16 where "CR = 0x0D"
definition SP :: unit16 where "SP = 0x20"
definition PIPE :: unit16 where "PIPE = 0x7C"
definition AMP :: unit16 where "AMP = 0x26"
definition LT :: unit16 where "LT = 0x3C"
definition GT :: unit16 where "GT = 0x3E"
definition QUOT :: unit16 where "QUOT = 0x22"
definition APOS :: unit16 where "APOS = 0x27"

text \<open>
  The code units matched by the regular expression class \<open>\s\<close>, which are also the ones
  removed by \<open>trim\<close> and \<open>trimStart\<close> (white space and line terminators of ECMAScript).
\<close>

definition isWhite :: "unit16 \<Rightarrow> bool" where
  "isWhite c = (c \<in> set [0x09, 0x0A, 0x0B, 0x0C, 0x0D, 0x20, 0xA0, 0x1680,
      0x2000, 0x2001, 0x2002, 0x2003, 0x2004, 0x2005, 0x2006, 0x2007, 0x2008, 0x2009, 0x200A,
      0x2028, 0x2029, 0x202F, 0x205F, 0x3000, 0xFEFF])"

definition trimStart :: "ustring \<Rightarrow> ustring" where
  "trimStart s = dropWhile isWhite s"

definition trimEnd :: "ustring \<Rightarrow> ustring" where
  "trimEnd s = rev (dropWhile isWhite (rev s))"

definition trim :: "ustring \<Rightarrow> ustring" where
  "trim s = trimEnd (trimStart s)"

text \<open>\<open>Array.prototype.join\<close> on a list of strings.\<close>

fun join :: "ustring \<Rightarrow> ustring list \<Rightarrow> ustring" where
  "join sep [] = []"
| "join sep [x] = x"
| "join sep (x # y # ys) = x @ sep @ join sep (y # ys)"

text \<open>The characters of a string that are not white space, in order.\<close>

definition nonWhite :: "ustring \<Rightarrow> ustring" where
  "nonWhite s = filter (\<lambda>c. \<not> isWhite c) s"

section \<open>Numbers\<close>

text \<open>
  Numbers of the source are modelled as real numbers: rounding, infinities and NaN are
  outside the model. A number is falsy exactly when it is zero, a string when it is empty;
  \<open>a || b\<close> is \<open>a\<close> when \<open>a\<close> is truthy and \<open>b\<close> otherwise.
\<close>

definition orNum :: "real \<Rightarrow> real \<Rightarrow> real" where
  "orNum a b = (if a \<noteq> 0 then a else b)"

definition orStr :: "ustring \<Rightarrow> ustring \<Rightarrow> ustring" where
  "orStr a b = (if a \<noteq> [] then a else b)"

section \<open>Data model\<close>

text \<open>
  Font metrics as \<open>getMetrics\<close> returns them and \<open>buildMask\<close> and \<open>wrapLines\<close> read
  them. The height may be absent (\<open>undefined\<close>).
\<close>

record metrics =
  fontSize :: real
  lineHeight :: real
  fontFamily :: ustring
  fontWeight :: ustring
  width :: real
  height :: "real option"

record maskImage =
  dataUrl :: ustring
  maskWidth :: real
  maskHeight :: real

text \<open>
  The part of the document that \<open>apply\<close> reads and writes: elements found by their
  identifier, each with its \<open>data-bright-text\<close> attribute, its text content and the eight
  style properties that \<open>apply\<close> assigns; the lines written by \<open>console.warn\<close>; and
  whether the measuring canvas cached by \<open>measureContext\<close> has been created. A style
  property holds the string last assigned to it; elements nested inside the content
  element are not part of the model.
\<close>

record style =
  mask :: "ustring option"
  webkitMask :: "ustring option"
  maskSize :: "ustring option"
  webkitMaskSize :: "ustring option"
  maskRepeat :: "ustring option"
  webkitMaskRepeat :: "ustring option"
  maskPosition :: "ustring option"
  webkitMaskPosition :: "ustring option"

record element =
  brightText :: "ustring option"
  textContent :: ustring
  elemStyle :: style

record page =
  byId :: "ustring \<Rightarrow> element option"
  console :: "ustring list"
  canvas :: bool

text \<open>
  What \<open>getMetrics\<close> reads from the host for an element: the parsed computed font size,
  the computed line height (\<open>None\<close> for \<open>normal\<close>, otherwise its parsed value), the
  computed font family and weight, the bounding rectangle and the offset size.
\<close>

record computed =
  cssFontSize :: real
  cssLineHeight :: "real option"
  cssFontFamily :: ustring
  cssFontWeight :: ustring
  rectWidth :: real
  rectHeight :: real
  offsetWidth :: real
  offsetHeight :: real

text \<open>
  The host: the conversion of a number to a string used by template literals, the width
  that a canvas context with a given font measures for a text, and the computed style and
  layout of an element of the current page.
\<close>

record host =
  numberToString :: "real \<Rightarrow> ustring"
  measureText :: "ustring \<Rightarrow> ustring \<Rightarrow> real"
  inspect :: "page \<Rightarrow> ustring \<Rightarrow> computed"

text \<open>What a call can raise: a TypeError, a URIError, or any other thrown value.\<close>

datatype js_error = TypeError | URIError | OtherError

text \<open>
  A value that \<open>normalizeLines\<close> converts: a falsy one, a string, or a list whose elements
  \<open>String\<close> turns into the given strings.
\<close>

datatype lineSource = Absent | Text ustring | Lines "ustring list"

text \<open>
  The value of \<open>options.textLines\<close>: one that \<open>normalizeLines\<close> converts, or one on which
  the conversion \<open>String(...)\<close> inside \<open>normalizeLines\<close> raises (an object without a
  usable \<open>toString\<close>, alone or as an element of a list).
\<close>

datatype textLinesArg = Given lineSource | Raises js_error

text \<open>
  The options object of \<open>apply\<close>, and the argument of a call: nothing (\<open>undefined\<close>),
  \<open>null\<close>, or an options object.
\<close>

record options =
  containerId :: "ustring option"
  contentId :: "ustring option"
  textLines :: textLinesArg

datatype arg = Undefined | Null | Options options

section \<open>escapeXml\<close>

text \<open>
  \<open>str.replace(/c/g, r)\<close> for a single-character pattern: every occurrence of \<open>c\<close>
  is replaced by \<open>r\<close>, scanning left to right.
\<close>

fun replaceAll :: "unit16 \<Rightarrow> ustring \<Rightarrow> ustring \<Rightarrow> ustring" where
  "replaceAll c r [] = []"
| "replaceAll c r (x # xs) = (if x = c then r @ replaceAll c r xs else x # replaceAll c r xs)"

definition escapeXml :: "ustring \<Rightarrow> ustring" where
  "escapeXml str =
     replaceAll APOS (lit ''&#39;'')
       (replaceAll QUOT (lit ''&quot;'')
         (replaceAll GT (lit ''&gt;'')
           (replaceAll LT (lit ''&lt;'')
             (replaceAll AMP (lit ''&amp;'') str))))"


section \<open>normalizeLines\<close>

text \<open>
  \<open>s.split(/\r?\n|\|/)\<close>: a separator is a line feed, a carriage return directly followed
  by a line feed, or a pipe. The result always has at least one piece.
\<close>

fun consFirst :: "unit16 \<Rightarrow> ustring list \<Rightarrow> ustring list" where
  "consFirst c [] = [[c]]"
| "consFirst c (l # ls) = (c # l) # ls"

fun splitLinesPipe :: "ustring \<Rightarrow> ustring list" where
  "splitLinesPipe [] = [[]]"
| "splitLinesPipe [c] = (if c = LF \<or> c = PIPE then [[], []] else [[c]])"
| "splitLinesPipe (c # d # cs) =
     (if c = CR \<and> d = LF then [] # splitLinesPipe cs
      else if c = LF \<or> c = PIPE then [] # splitLinesPipe (d # cs)
      else consFirst c (splitLinesPipe (d # cs)))"

definition normalizeLines :: "lineSource \<Rightarrow> ustring list" where
  "normalizeLines source =
     (case source of
        Absent \<Rightarrow> []
      | Text s \<Rightarrow> if s = [] then []
                  else filter (\<lambda>l. l \<noteq> []) (map trim (splitLinesPipe s))
      | Lines ls \<Rightarrow> filter (\<lambda>l. l \<noteq> []) (map trim ls))"

section \<open>encodeURIComponent\<close>

text \<open>
  The host function used by \<open>buildMask\<close>, after ECMAScript's \<open>Encode\<close>: unreserved
  characters are kept, every other code point is written as the percent-escaped bytes of
  its UTF-8 form, and an unpaired surrogate raises URIError.
\<close>

definition isHighSurrogate :: "unit16 \<Rightarrow> bool" where
  "isHighSurrogate c = (0xD800 \<le> c \<and> c \<le> 0xDBFF)"

definition isLowSurrogate :: "unit16 \<Rightarrow> bool" where
  "isLowSurrogate c = (0xDC00 \<le> c \<and> c \<le> 0xDFFF)"

definition uriUnreserved :: "unit16 \<Rightarrow> bool" where
  "uriUnreserved c =
     (c \<in> set (lit ''ABCDEFGHIJKLMNOPQRSTUVWXYZabcdefghijklmnopqrstuvwxyz0123456789-_.!~*()'')
      \<or> c = APOS)"

definition hexDigit :: "nat \<Rightarrow> unit16" where
  "hexDigit n = (if n < 10 then of_nat (48 + n) else of_nat (55 + n))"

definition percentByte :: "nat \<Rightarrow> ustring" where
  "percentByte b = [0x25, hexDigit (b div 16), hexDigit (b mod 16)]"

definition utf8 :: "nat \<Rightarrow> nat list" where
  "utf8 cp =
     (if cp < 0x80 then [cp]
      else if cp < 0x800 then [0xC0 + cp div 64, 0x80 + cp mod 64]
      else if cp < 0x10000 then
        [0xE0 + cp div 4096, 0x80 + (cp div 64) mod 64, 0x80 + cp mod 64]
      else [0xF0 + cp div 262144, 0x80 + (cp div 4096) mod 64,
            0x80 + (cp div 64) mod 64, 0x80 + cp mod 64])"

definition percentEncode :: "nat \<Rightarrow> ustring" where
  "percentEncode cp = concat (map percentByte (utf8 cp))"

definition pairCodePoint :: "unit16 \<Rightarrow> unit16 \<Rightarrow> nat" where
  "pairCodePoint hi lo = 0x10000 + (unat hi - 0xD800) * 0x400 + (unat lo - 0xDC00)"

definition prepend :: "ustring \<Rightarrow> js_error + ustring \<Rightarrow> js_error + ustring" where
  "prepend p r = (case r of Inl e \<Rightarrow> Inl e | Inr u \<Rightarrow> Inr (p @ u))"

fun encodeURIComponent :: "ustring \<Rightarrow> js_error + ustring" where
  "encodeURIComponent [] = Inr []"
| "encodeURIComponent [c] =
     (if uriUnreserved c then Inr [c]
      else if isLowSurrogate c \<or> isHighSurrogate c then Inl URIError
      else Inr (percentEncode (unat c)))"
| "encodeURIComponent (c # d # cs) =
     (if uriUnreserved c then prepend [c] (encodeURIComponent (d # cs))
      else if isLowSurrogate c then Inl URIError
      else if isHighSurrogate c then
        (if isLowSurrogate d then prepend (percentEncode (pairCodePoint c d)) (encodeURIComponent cs)
         else Inl URIError)
      else prepend (percentEncode (unat c)) (encodeURIComponent (d # cs)))"

section \<open>buildMask\<close>

text \<open>The local constants of \<open>buildMask\<close>, one definition each.\<close>

definition bmWidth :: "metrics \<Rightarrow> real" where
  "bmWidth m = max (width m) 1"

definition bmLineHeight :: "metrics \<Rightarrow> real" where
  "bmLineHeight m = orNum (lineHeight m) (fontSize m * 1.4)"

definition bmHeight :: "ustring list \<Rightarrow> metrics \<Rightarrow> real" where
  "bmHeight lines m =
     (let stacked = max (bmLineHeight m * real (length lines)) (bmLineHeight m)
      in case height m of
           None \<Rightarrow> stacked
         | Some h \<Rightarrow> if h \<noteq> 0 then h else stacked)"

definition bmStartY :: "ustring list \<Rightarrow> metrics \<Rightarrow> real" where
  "bmStartY lines m =
     max ((bmHeight lines m - bmLineHeight m * (real (length lines) - 1)) / 2)
         (bmLineHeight m * 0.6)"

text \<open>
  One \<open>tspan\<close> element; \<open>ns\<close> is the host's conversion of a number to a string, used by
  every template literal that interpolates a number.
\<close>

definition tspan :: "(real \<Rightarrow> ustring) \<Rightarrow> real \<Rightarrow> real \<Rightarrow> ustring \<Rightarrow> ustring" where
  "tspan ns x y content =
     lit ''<tspan x='' @ [QUOT] @ ns x @ [QUOT] @ lit '' y='' @ [QUOT] @ ns y @ [QUOT]
       @ lit ''>'' @ content @ lit ''</tspan>''"

text \<open>\<open>lines.map((line, idx) => ...)\<close>, with the index counted up from \<open>idx\<close>.\<close>

fun tspansFrom :: "(real \<Rightarrow> ustring) \<Rightarrow> ustring list \<Rightarrow> metrics \<Rightarrow> nat \<Rightarrow> ustring list \<Rightarrow> ustring list" where
  "tspansFrom ns lines m idx [] = []"
| "tspansFrom ns lines m idx (line # rest) =
     tspan ns (bmWidth m / 2) (bmStartY lines m + real idx * bmLineHeight m) (escapeXml line)
       # tspansFrom ns lines m (Suc idx) rest"

definition bmTspans :: "(real \<Rightarrow> ustring) \<Rightarrow> ustring list \<Rightarrow> metrics \<Rightarrow> ustring list" where
  "bmTspans ns lines m = tspansFrom ns lines m 0 lines"

definition bmSvg :: "(real \<Rightarrow> ustring) \<Rightarrow> ustring list \<Rightarrow> metrics \<Rightarrow> ustring" where
  "bmSvg ns lines m =
     lit ''\<newline>            <svg xmlns='' @ [QUOT] @ lit ''http://www.w3.org/2000/svg'' @ [QUOT]
       @ lit '' viewBox='' @ [QUOT] @ lit ''0 0 '' @ ns (bmWidth m) @ lit '' ''
       @ ns (bmHeight lines m) @ [QUOT] @ lit ''>''
     @ lit ''\<newline>                <style>''
     @ lit ''\<newline>                    text {''
     @ lit ''\<newline>                        font-family: '' @ fontFamily m @ lit '';''
     @ lit ''\<newline>                        font-size: '' @ ns (fontSize m) @ lit ''px;''
     @ lit ''\<newline>                        font-weight: '' @ fontWeight m @ lit '';''
     @ lit ''\<newline>                        fill: white;''
     @ lit ''\<newline>                    }''
     @ lit ''\<newline>                </style>''
     @ lit ''\<newline>                <text text-anchor='' @ [QUOT] @ lit ''middle'' @ [QUOT] @ lit ''>''
       @ concat (bmTspans ns lines m) @ lit ''</text>''
     @ lit ''\<newline>            </svg>''
     @ lit ''\<newline>        ''"

definition buildMask :: "(real \<Rightarrow> ustring) \<Rightarrow> ustring list \<Rightarrow> metrics \<Rightarrow> js_error + maskImage" where
  "buildMask ns lines m =
     (case encodeURIComponent (bmSvg ns lines m) of
        Inl e \<Rightarrow> Inl e
      | Inr enc \<Rightarrow>
          Inr \<lparr>dataUrl = lit ''data:image/svg+xml;charset=utf-8,'' @ enc,
               maskWidth = bmWidth m,
               maskHeight = bmHeight lines m\<rparr>)"

section \<open>getMetrics and measureContext\<close>

definition getMetrics :: "computed \<Rightarrow> metrics" where
  "getMetrics c =
     (let fs = orNum (cssFontSize c) 16;
          lh = (case cssLineHeight c of None \<Rightarrow> fs * 1.4 | Some v \<Rightarrow> v)
      in \<lparr>fontSize = fs,
          lineHeight = lh,
          fontFamily = orStr (cssFontFamily c) ([APOS] @ lit ''Arial Black'' @ [APOS] @ lit '', sans-serif''),
          fontWeight = orStr (cssFontWeight c) (lit ''600''),
          width = orNum (rectWidth c) (orNum (offsetWidth c) 800),
          height = Some (orNum (rectHeight c) (orNum (offsetHeight c) (lh * 2)))\<rparr>)"

text \<open>
  \<open>measureContext\<close> creates the measuring canvas on first use and keeps it; the context it
  returns measures with the font it was given, which is \<open>measureText\<close> of the host.
\<close>

definition measureContext :: "page \<Rightarrow> page" where
  "measureContext p = p\<lparr>canvas := True\<rparr>"

section \<open>wrapLines\<close>

text \<open>\<open>s.split(/\r?\n/)\<close>.\<close>

fun splitNewline :: "ustring \<Rightarrow> ustring list" where
  "splitNewline [] = [[]]"
| "splitNewline [c] = (if c = LF then [[], []] else [[c]])"
| "splitNewline (c # d # cs) =
     (if c = CR \<and> d = LF then [] # splitNewline cs
      else if c = LF then [] # splitNewline (d # cs)
      else consFirst c (splitNewline (d # cs)))"

text \<open>
  \<open>s.split(/(\s+)/)\<close>: the runs without white space and, because of the capture group, the
  white-space runs between them. A string that starts or ends with white space gives an
  empty first or last piece.
\<close>

function splitWhite :: "ustring \<Rightarrow> ustring list" where
  "splitWhite s =
     (if dropWhile (\<lambda>c. \<not> isWhite c) s = [] then [takeWhile (\<lambda>c. \<not> isWhite c) s]
      else takeWhile (\<lambda>c. \<not> isWhite c) s
             # takeWhile isWhite (dropWhile (\<lambda>c. \<not> isWhite c) s)
             # splitWhite (dropWhile isWhite (dropWhile (\<lambda>c. \<not> isWhite c) s)))"
  by pat_completeness auto
termination
proof (relation "measure length")
  show "wf (measure length)" by simp
next
  fix s :: ustring
  let ?r = "dropWhile (\<lambda>c. \<not> isWhite c) s"
  assume ne: "?r \<noteq> []"
  then have "isWhite (hd ?r)"
    using hd_dropWhile [of "\<lambda>c. \<not> isWhite c" s] by simp
  with ne have "length (dropWhile isWhite ?r) < length ?r"
    by (cases ?r) (auto simp: le_imp_less_Suc length_dropWhile_le)
  also have "length ?r \<le> length s" by (rule length_dropWhile_le)
  finally show "(dropWhile isWhite ?r, s) \<in> measure length" by simp
qed

declare splitWhite.simps [simp del]

text \<open>\<open>Array.from(s)\<close>: the code points of the string, a surrogate pair being one piece.\<close>

fun codePoints :: "ustring \<Rightarrow> ustring list" where
  "codePoints [] = []"
| "codePoints [c] = [[c]]"
| "codePoints (c # d # cs) =
     (if isHighSurrogate c \<and> isLowSurrogate d then [c, d] # codePoints cs
      else [c] # codePoints (d # cs))"

definition tokenize :: "ustring \<Rightarrow> ustring list" where
  "tokenize rawLine = (if \<exists>c \<in> set rawLine. isWhite c then splitWhite rawLine else codePoints rawLine)"

text \<open>
  The inner loop over the tokens of one segment. The state is the list of finished lines
  and the current line; \<open>ms\<close> measures a text and \<open>maxWidth\<close> is the limit.
\<close>

fun wrapTokens :: "(ustring \<Rightarrow> real) \<Rightarrow> real \<Rightarrow> ustring list \<Rightarrow> ustring list \<times> ustring \<Rightarrow> ustring list \<times> ustring" where
  "wrapTokens ms maxWidth [] st = st"
| "wrapTokens ms maxWidth (token # rest) (result, current) =
     (if token = [] then wrapTokens ms maxWidth rest (result, current)
      else if ms (current @ token) > maxWidth \<and> length (trim current) > 0
        then wrapTokens ms maxWidth rest (result @ [current], trimStart token)
      else wrapTokens ms maxWidth rest (result, current @ token))"

text \<open>The outer loop over the segments, pushing onto \<open>result\<close>.\<close>

fun wrapRawLines :: "(ustring \<Rightarrow> real) \<Rightarrow> real \<Rightarrow> ustring list \<Rightarrow> ustring list \<Rightarrow> ustring list" where
  "wrapRawLines ms maxWidth [] result = result"
| "wrapRawLines ms maxWidth (rawLine # rest) result =
     (if rawLine = [] then wrapRawLines ms maxWidth rest (result @ [[]])
      else case wrapTokens ms maxWidth (tokenize rawLine) (result, []) of
             (result', current) \<Rightarrow> wrapRawLines ms maxWidth rest (result' @ [current]))"

definition wlMaxWidth :: "metrics \<Rightarrow> real" where
  "wlMaxWidth m = max (width m - 4) 1"

definition wlFont :: "host \<Rightarrow> metrics \<Rightarrow> ustring" where
  "wlFont h m = fontWeight m @ lit '' '' @ numberToString h (fontSize m) @ lit ''px '' @ fontFamily m"

definition wrapLines :: "host \<Rightarrow> ustring \<Rightarrow> metrics \<Rightarrow> ustring list" where
  "wrapLines h text m =
     (let rawLines = splitNewline text;
          result = wrapRawLines (measureText h (wlFont h m)) (wlMaxWidth m) rawLines []
      in filter (\<lambda>line. length line \<noteq> 0 \<or> [] \<in> set rawLines) result)"

section \<open>apply\<close>

definition warn :: "ustring \<Rightarrow> page \<Rightarrow> page" where
  "warn msg p = p\<lparr>console := console p @ [msg]\<rparr>"

definition setTextContent :: "ustring \<Rightarrow> ustring \<Rightarrow> page \<Rightarrow> page" where
  "setTextContent i t p =
     (case byId p i of
        None \<Rightarrow> p
      | Some e \<Rightarrow> p\<lparr>byId := (byId p)(i \<mapsto> e\<lparr>textContent := t\<rparr>)\<rparr>)"

definition cssUrl :: "ustring \<Rightarrow> ustring" where
  "cssUrl u = lit ''url('' @ [QUOT] @ u @ [QUOT] @ lit '')''"

definition cssSize :: "host \<Rightarrow> maskImage \<Rightarrow> ustring" where
  "cssSize h img =
     numberToString h (maskWidth img) @ lit ''px '' @ numberToString h (maskHeight img) @ lit ''px''"

text \<open>The eight style assignments at the end of \<open>apply\<close>.\<close>

definition setMaskStyle :: "host \<Rightarrow> ustring \<Rightarrow> maskImage \<Rightarrow> page \<Rightarrow> page" where
  "setMaskStyle h i img p =
     (case byId p i of
        None \<Rightarrow> p
      | Some e \<Rightarrow>
          p\<lparr>byId := (byId p)(i \<mapsto> e\<lparr>elemStyle :=
              \<lparr>mask = Some (cssUrl (dataUrl img)),
               webkitMask = Some (cssUrl (dataUrl img)),
               maskSize = Some (cssSize h img),
               webkitMaskSize = Some (cssSize h img),
               maskRepeat = Some (lit ''no-repeat''),
               webkitMaskRepeat = Some (lit ''no-repeat''),
               maskPosition = Some (lit ''center''),
               webkitMaskPosition = Some (lit ''center'')\<rparr>\<rparr>)\<rparr>)"

text \<open>
  The metrics that \<open>apply\<close> hands to \<open>buildMask\<close>: those of the content element, with the
  height replaced by \<open>lineHeight * lines.length + lineHeight\<close> when it is falsy.
\<close>

definition maskMetrics :: "metrics \<Rightarrow> ustring list \<Rightarrow> metrics" where
  "maskMetrics m lines =
     m\<lparr>height := Some (case height m of
            Some v \<Rightarrow> if v \<noteq> 0 then v
                      else lineHeight m * real (length lines) + lineHeight m
          | None \<Rightarrow> lineHeight m * real (length lines) + lineHeight m)\<rparr>"

text \<open>
  The end of \<open>apply\<close>, from the second call of \<open>getMetrics\<close> on: the mask is built from the
  lines and assigned to the content element. An exception of \<open>buildMask\<close> leaves the page
  as it is at that point.
\<close>

definition renderMask :: "host \<Rightarrow> ustring \<Rightarrow> ustring list \<Rightarrow> page \<Rightarrow> js_error option \<times> page" where
  "renderMask h contentId' lines p =
     (case buildMask (numberToString h) lines
             (maskMetrics (getMetrics (inspect h p contentId')) lines) of
        Inl e \<Rightarrow> (Some e, p)
      | Inr img \<Rightarrow> (None, setMaskStyle h contentId' img p))"

text \<open>The source text when no lines were given: the first truthy one of three places.\<close>

definition pickSourceText :: "element \<Rightarrow> element \<Rightarrow> ustring" where
  "pickSourceText container content =
     (case brightText content of
        Some t \<Rightarrow> if t \<noteq> [] then t
                  else (case brightText container of
                          Some u \<Rightarrow> if u \<noteq> [] then u else textContent content
                        | None \<Rightarrow> textContent content)
      | None \<Rightarrow> (case brightText container of
                   Some u \<Rightarrow> if u \<noteq> [] then u else textContent content
                 | None \<Rightarrow> textContent content))"

definition resolveContainerId :: "options \<Rightarrow> ustring" where
  "resolveContainerId opts =
     (case containerId opts of
        Some i \<Rightarrow> orStr i (lit ''bright-container'')
      | None \<Rightarrow> lit ''bright-container'')"

definition resolveContentId :: "options \<Rightarrow> ustring" where
  "resolveContentId opts =
     (case contentId opts of
        Some i \<Rightarrow> orStr i (lit ''bright-content'')
      | None \<Rightarrow> lit ''bright-content'')"

definition applyOptions :: "host \<Rightarrow> options \<Rightarrow> page \<Rightarrow> js_error option \<times> page" where
  "applyOptions h opts p =
     (case (byId p (resolveContainerId opts), byId p (resolveContentId opts)) of
        (Some container, Some content) \<Rightarrow>
          (case textLines opts of
             Raises e \<Rightarrow> (Some e, p)
           | Given source \<Rightarrow>
               (let manualLines = normalizeLines source
                in if length manualLines = 0 then
                     (let sourceText = trim (pickSourceText container content)
                      in if sourceText = [] then
                           (None, warn (lit ''[BrightMode] no text provided'') p)
                         else
                           (let m = getMetrics (inspect h p (resolveContentId opts));
                                lines = wrapLines h sourceText m;
                                p1 = measureContext p
                            in renderMask h (resolveContentId opts) lines
                                 (setTextContent (resolveContentId opts) (join [LF] lines) p1)))
                   else renderMask h (resolveContentId opts) manualLines
                          (setTextContent (resolveContentId opts) (join [LF] manualLines) p)))
      | _ \<Rightarrow> (None, warn (lit ''[BrightMode] container or content not found'') p))"

text \<open>
  The call itself (\<open>apply\<close> in the source): the default parameter \<open>options = {}\<close> stands in for \<open>undefined\<close> only;
  reading a property of \<open>null\<close> raises TypeError.
\<close>

definition apply_fn :: "host \<Rightarrow> arg \<Rightarrow> page \<Rightarrow> js_error option \<times> page" where
  "apply_fn h a p =
     (case a of
        Undefined \<Rightarrow>
          applyOptions h \<lparr>containerId = None, contentId = None, textLines = Given Absent\<rparr> p
      | Null \<Rightarrow> (Some TypeError, p)
      | Options opts \<Rightarrow> applyOptions h opts p)"

section \<open>Notions used by the statements\<close>

text \<open>The entity that stands for a character, and the character itself when it has none.\<close>

definition entityOf :: "unit16 \<Rightarrow> ustring" where
  "entityOf c =
     (if c = AMP then lit ''&amp;''
      else if c = LT then lit ''&lt;''
      else if c = GT then lit ''&gt;''
      else if c = QUOT then lit ''&quot;''
      else if c = APOS then lit ''&#39;''
      else [c])"


text \<open>A string contains a surrogate code unit that is not part of a pair.\<close>

fun unpaired :: "ustring \<Rightarrow> bool" where
  "unpaired [] = False"
| "unpaired [c] = (isHighSurrogate c \<or> isLowSurrogate c)"
| "unpaired (c # d # cs) =
     (if isHighSurrogate c \<and> isLowSurrogate d then unpaired cs
      else isHighSurrogate c \<or> isLowSurrogate c \<or> unpaired (d # cs))"

text \<open>The metrics carry a truthy height.\<close>

definition explicitHeight :: "metrics \<Rightarrow> bool" where
  "explicitHeight m = (case height m of Some v \<Rightarrow> v \<noteq> 0 | None \<Rightarrow> False)"

text \<open>
  The lines that the inner loop leaves for a list of tokens, started with no finished line
  and an empty current line, and the lines of one segment wrapped on its own.
\<close>

definition tokenLines :: "(ustring \<Rightarrow> real) \<Rightarrow> real \<Rightarrow> ustring list \<Rightarrow> ustring list" where
  "tokenLines ms maxWidth tokens =
     (case wrapTokens ms maxWidth tokens ([], []) of (result, current) \<Rightarrow> result @ [current])"

definition wrapSegment :: "(ustring \<Rightarrow> real) \<Rightarrow> real \<Rightarrow> ustring \<Rightarrow> ustring list" where
  "wrapSegment ms maxWidth rawLine =
     (if rawLine = [] then [[]] else tokenLines ms maxWidth (tokenize rawLine))"


text \<open>
  A host and a page for concrete runs: every number is written as \<open>0\<close>, every character
  is one pixel wide, and every element is laid out six pixels wide in a sixteen-pixel
  font; the page has an empty container and a content element whose text is \<open>ab cd\<close>.
\<close>

definition exComputed :: computed where
  "exComputed = \<lparr>cssFontSize = 16, cssLineHeight = None, cssFontFamily = lit ''serif'',
      cssFontWeight = lit ''400'', rectWidth = 6, rectHeight = 0, offsetWidth = 0,
      offsetHeight = 0\<rparr>"

definition exHost :: host where
  "exHost = \<lparr>numberToString = (\<lambda>x. lit ''0''), measureText = (\<lambda>font t. real (length t)),
      inspect = (\<lambda>p i. exComputed)\<rparr>"

definition exStyle :: style where
  "exStyle = \<lparr>mask = None, webkitMask = None, maskSize = None, webkitMaskSize = None,
      maskRepeat = None, webkitMaskRepeat = None, maskPosition = None,
      webkitMaskPosition = None\<rparr>"

definition exContainer :: element where
  "exContainer = \<lparr>brightText = None, textContent = [], elemStyle = exStyle\<rparr>"

definition exContent :: element where
  "exContent = \<lparr>brightText = None, textContent = lit ''ab cd'', elemStyle = exStyle\<rparr>"

definition exPage :: page where
  "exPage = \<lparr>byId = [lit ''bright-container'' \<mapsto> exContainer, lit ''bright-content'' \<mapsto> exContent],
      console = [], canvas = False\<rparr>"

definition exMetrics :: metrics where
  "exMetrics = getMetrics exComputed"

text \<open>A code unit that is not a surrogate.\<close>

definition noSurrogate :: "unit16 \<Rightarrow> bool" where
  "noSurrogate c = (\<not> isHighSurrogate c \<and> \<not> isLowSurrogate c)"

text \<open>
  The strings that \<open>buildMask\<close> interpolates besides the lines (numbers written by the
  host, font family and font weight) contain no unpaired surrogate.
\<close>

definition markupSafe :: "(real \<Rightarrow> ustring) \<Rightarrow> metrics \<Rightarrow> bool" where
  "markupSafe ns m = ((\<forall>x. \<not> unpaired (ns x)) \<and> \<not> unpaired (fontFamily m) \<and> \<not> unpaired (fontWeight m))"


definition exBlank :: options where
  "exBlank = \<lparr>containerId = None, contentId = None, textLines = Given (Text (lit '' ''))\<rparr>"

definition exManual :: options where
  "exManual = \<lparr>containerId = None, contentId = None,
      textLines = Given (Lines [lit ''Line one'', lit ''Line two''])\<rparr>"
















section \<open>Basic facts\<close>

lemmas char_defs = AMP_def LT_def GT_def QUOT_def APOS_def LF_def CR_def SP_def PIPE_def

lemmas ex_defs = exComputed_def exHost_def exStyle_def exContainer_def exContent_def
  exPage_def exMetrics_def

lemma rev_dropWhile_rev_prefix: "prefix (rev (dropWhile P (rev a))) a"
proof -
  have "rev a = takeWhile P (rev a) @ dropWhile P (rev a)" by simp
  then have "a = rev (dropWhile P (rev a)) @ rev (takeWhile P (rev a))"
    by (metis rev_append rev_rev_ident)
  then show ?thesis by (metis prefixI)
qed

lemma trim_ends:
  assumes "trim s \<noteq> []"
  shows "\<not> isWhite (hd (trim s))" and "\<not> isWhite (last (trim s))"
proof -
  let ?a = "dropWhile isWhite s"
  have t: "trim s = rev (dropWhile isWhite (rev ?a))"
    by (simp add: trim_def trimStart_def trimEnd_def)
  with assms have ne: "dropWhile isWhite (rev ?a) \<noteq> []" by simp
  then show "\<not> isWhite (last (trim s))"
    by (simp add: t last_rev hd_dropWhile)
  obtain r where r: "?a = trim s @ r"
    using rev_dropWhile_rev_prefix [of isWhite ?a] t by (auto simp: prefix_def)
  with assms have "?a \<noteq> []" and "hd (trim s) = hd ?a" by auto
  then show "\<not> isWhite (hd (trim s))" by (simp add: hd_dropWhile)
qed

lemma trim_fixed:
  assumes "l \<noteq> []" "\<not> isWhite (hd l)" "\<not> isWhite (last l)"
  shows "trim l = l"
proof -
  from assms have "dropWhile isWhite l = l" by (cases l) auto
  moreover from assms have "dropWhile isWhite (rev l) = rev l"
    by (cases "rev l") (auto simp: last_rev [symmetric] simp del: last_rev)
  ultimately show ?thesis by (simp add: trim_def trimStart_def trimEnd_def)
qed

lemma trim_Nil: "trim [] = []"
  by (simp add: trim_def trimStart_def trimEnd_def)

lemma trim_idem: "trim (trim s) = trim s"
proof (cases "trim s = []")
  case True
  then show ?thesis by (simp add: trim_Nil)
next
  case False
  then show ?thesis by (simp add: trim_fixed trim_ends)
qed

section \<open>escapeXml\<close>

lemma replaceAll_append:
  "replaceAll c r (a @ b) = replaceAll c r a @ replaceAll c r b"
  by (induction a) auto

lemma escapeXml_Nil: "escapeXml [] = []"
  by (simp add: escapeXml_def)

lemma escapeXml_Cons: "escapeXml (c # cs) = entityOf c @ escapeXml cs"
  by (simp add: escapeXml_def entityOf_def replaceAll_append lit_def char_defs)







section \<open>normalizeLines\<close>

lemma normalizeLines_trimmed:
  "l \<in> set (normalizeLines source) \<Longrightarrow> l \<noteq> [] \<and> trim l = l"
  by (auto simp: normalizeLines_def trim_idem split: lineSource.splits if_splits)

lemma filter_map_trim_fixed:
  "\<forall>l \<in> set ls. l \<noteq> [] \<and> trim l = l \<Longrightarrow> filter (\<lambda>l. l \<noteq> []) (map trim ls) = ls"
  by (induction ls) auto

text \<open>
  C10. Every line that \<open>normalizeLines\<close> returns is trimmed and not empty, and
  \<open>normalizeLines\<close> applied to the list it returned gives that list again.
\<close>

theorem normalizeLines_idempotent:
  "normalizeLines (Lines (normalizeLines source)) = normalizeLines source \<and>
   (\<forall>l \<in> set (normalizeLines source). l \<noteq> [] \<and> trim l = l)"
proof -
  have a: "\<forall>l \<in> set (normalizeLines source). l \<noteq> [] \<and> trim l = l"
    using normalizeLines_trimmed by blast
  have "normalizeLines (Lines (normalizeLines source)) =
        filter (\<lambda>l. l \<noteq> []) (map trim (normalizeLines source))"
    by (simp add: normalizeLines_def)
  also have "\<dots> = normalizeLines source"
    using a by (rule filter_map_trim_fixed)
  finally show ?thesis using a by blast
qed

theorem normalizeLines_idempotent_witness:
  "normalizeLines (Text (lit '' a | b '')) = [lit ''a'', lit ''b''] \<and>
   normalizeLines (Lines (normalizeLines (Text (lit '' a | b '')))) = [lit ''a'', lit ''b''] \<and>
   trim (lit ''a'') = lit ''a''"
  using normalizeLines_idempotent [of "Text (lit '' a | b '')"]
  by (simp add: normalizeLines_def lit_def char_defs trim_def trimStart_def trimEnd_def isWhite_def)

section \<open>encodeURIComponent and unpaired surrogates\<close>

lemma lit_noSurrogate: "c \<in> set (lit s) \<Longrightarrow> noSurrogate c"
proof -
  assume "c \<in> set (lit s)"
  then obtain x where c: "c = of_nat (of_char x)" by (auto simp: lit_def)
  have "unat c = (of_char x :: nat) mod 65536" unfolding c by (simp add: unat_of_nat)
  also have "\<dots> \<le> of_char x" by (rule mod_less_eq_dividend)
  also have "\<dots> < 256" by (rule nat_of_char_less_256)
  finally have "unat c < 256" .
  then show ?thesis
    by (simp add: noSurrogate_def isHighSurrogate_def isLowSurrogate_def word_le_nat_alt)
qed

lemma unreserved_noSurrogate: "uriUnreserved c \<Longrightarrow> noSurrogate c"
proof -
  assume "uriUnreserved c"
  moreover have "noSurrogate APOS"
    by (simp add: APOS_def noSurrogate_def isHighSurrogate_def isLowSurrogate_def)
  ultimately show ?thesis
    using lit_noSurrogate unfolding uriUnreserved_def by blast
qed

lemma high_not_low: "isHighSurrogate c \<Longrightarrow> \<not> isLowSurrogate c"
  by (simp add: isHighSurrogate_def isLowSurrogate_def word_le_nat_alt)

lemma isl_prepend: "isl (prepend p r) = isl r"
  by (cases r) (simp_all add: prepend_def)

lemma encode_isl: "isl (encodeURIComponent s) = unpaired s"
proof (induction s rule: encodeURIComponent.induct)
  case 1 show ?case by simp
next
  case (2 c)
  show ?case using unreserved_noSurrogate [of c] by (auto simp: noSurrogate_def)
next
  case (3 c d cs)
  show ?case
  proof (cases "uriUnreserved c")
    case True
    with 3 unreserved_noSurrogate [of c] show ?thesis by (simp add: isl_prepend noSurrogate_def)
  next
    case False
    with 3 show ?thesis
      using high_not_low [of c] by (auto simp: isl_prepend)
  qed
qed


lemma unpaired_append: "\<not> unpaired a \<Longrightarrow> unpaired (a @ b) = unpaired b"
proof (induction a rule: unpaired.induct)
  case 1 show ?case by simp
next
  case (2 c)
  then show ?case by (cases b) simp_all
next
  case (3 c d cs)
  then show ?case by (simp split: if_splits)
qed

lemma noSurrogate_unpaired: "\<forall>c \<in> set s. noSurrogate c \<Longrightarrow> \<not> unpaired s"
  by (induction s rule: unpaired.induct) (simp_all add: noSurrogate_def)

lemma lit_unpaired: "\<not> unpaired (lit s)"
  by (rule noSurrogate_unpaired) (simp add: lit_noSurrogate)

section \<open>buildMask\<close>

lemma unpaired_appendI: "\<not> unpaired a \<Longrightarrow> \<not> unpaired b \<Longrightarrow> \<not> unpaired (a @ b)"
  by (simp add: unpaired_append)

lemma unpaired_single: "noSurrogate c \<Longrightarrow> \<not> unpaired [c]"
  by (simp add: noSurrogate_def)

lemma QUOT_unpaired: "\<not> unpaired [QUOT]"
  by (simp add: QUOT_def isHighSurrogate_def isLowSurrogate_def)

lemma entityOf_unpaired: "noSurrogate c \<Longrightarrow> \<not> unpaired (entityOf c)"
  by (simp add: entityOf_def lit_unpaired noSurrogate_def)

lemma special_noSurrogate:
  "isHighSurrogate c \<or> isLowSurrogate c \<Longrightarrow> entityOf c = [c]"
  by (auto simp: entityOf_def char_defs isHighSurrogate_def isLowSurrogate_def)

lemma escapeXml_unpaired: "\<not> unpaired s \<Longrightarrow> \<not> unpaired (escapeXml s)"
proof (induction s rule: unpaired.induct)
  case 1 show ?case by (simp add: escapeXml_Nil)
next
  case (2 c)
  then have "noSurrogate c" by (simp add: noSurrogate_def)
  then show ?case by (simp add: escapeXml_Cons escapeXml_Nil entityOf_unpaired)
next
  case (3 c d cs)
  show ?case
  proof (cases "isHighSurrogate c \<and> isLowSurrogate d")
    case True
    with 3 have "\<not> unpaired (escapeXml cs)" by simp
    moreover from True have "entityOf c = [c]" "entityOf d = [d]"
      by (simp_all add: special_noSurrogate)
    ultimately show ?thesis using True by (simp add: escapeXml_Cons)
  next
    case False
    with 3 have "noSurrogate c" and "\<not> unpaired (escapeXml (d # cs))"
      by (auto simp: noSurrogate_def)
    then show ?thesis
      by (simp only: escapeXml_Cons [of c] unpaired_appendI entityOf_unpaired not_False_eq_True)
  qed
qed

lemma tspan_unpaired:
  "\<forall>x. \<not> unpaired (ns x) \<Longrightarrow> \<not> unpaired content \<Longrightarrow> \<not> unpaired (tspan ns x y content)"
  unfolding tspan_def by (intro unpaired_appendI lit_unpaired QUOT_unpaired) simp_all

lemma tspansFrom_unpaired:
  "\<forall>x. \<not> unpaired (ns x) \<Longrightarrow> \<forall>l \<in> set rest. \<not> unpaired l \<Longrightarrow>
   \<not> unpaired (concat (tspansFrom ns lines m idx rest))"
proof (induction rest arbitrary: idx)
  case Nil show ?case by simp
next
  case (Cons l rest)
  then show ?case
    by (simp add: unpaired_append tspan_unpaired escapeXml_unpaired)
qed

lemma bmSvg_unpaired:
  assumes "markupSafe ns m" "\<forall>l \<in> set lines. \<not> unpaired l"
  shows "\<not> unpaired (bmSvg ns lines m)"
proof -
  from assms have ns: "\<And>x. \<not> unpaired (ns x)" and ff: "\<not> unpaired (fontFamily m)"
    and fw: "\<not> unpaired (fontWeight m)"
    by (simp_all add: markupSafe_def)
  have ts: "\<not> unpaired (concat (bmTspans ns lines m))"
    unfolding bmTspans_def using assms by (intro tspansFrom_unpaired) (simp_all add: markupSafe_def)
  show ?thesis
    unfolding bmSvg_def
    by (intro unpaired_appendI lit_unpaired QUOT_unpaired ns ff fw ts)
qed

lemma buildMask_returns:
  "\<not> unpaired (bmSvg ns lines m) \<Longrightarrow> \<exists>img. buildMask ns lines m = Inr img"
  using encode_isl [of "bmSvg ns lines m"]
  by (cases "encodeURIComponent (bmSvg ns lines m)") (simp_all add: buildMask_def)


lemma buildMask_Inr:
  "buildMask ns lines m = Inr img \<Longrightarrow>
   maskWidth img = bmWidth m \<and> maskHeight img = bmHeight lines m"
  by (auto simp: buildMask_def split: sum.splits)

text \<open>
  C6. Without a truthy height in the metrics, every image that \<open>buildMask\<close> returns is at
  least one line height high and at least as high as all lines stacked; for no lines at
  all and a line height that is not negative (the data model has it positive, and
  \<open>getMetrics\<close> never gives a negative one) its height is exactly one line height.
  \<open>buildMask\<close> does return an image whenever the strings it puts into the markup contain
  no unpaired surrogate, which is the one case where the percent-encoding fails.
  The line height is the one \<open>buildMask\<close> uses: the metrics' line height, or 1.4 times
  the font size when that is zero.
\<close>

theorem buildMask_height:
  assumes "\<not> explicitHeight m"
  shows "(\<forall>img. buildMask ns lines m = Inr img \<longrightarrow>
            bmLineHeight m \<le> maskHeight img \<and>
            bmLineHeight m * real (length lines) \<le> maskHeight img \<and>
            (lines = [] \<and> 0 \<le> bmLineHeight m \<longrightarrow> maskHeight img = bmLineHeight m)) \<and>
         (markupSafe ns m \<and> (\<forall>l \<in> set lines. \<not> unpaired l) \<longrightarrow>
            (\<exists>img. buildMask ns lines m = Inr img))"
proof -
  from assms have h: "bmHeight lines m = max (bmLineHeight m * real (length lines)) (bmLineHeight m)"
    by (auto simp: explicitHeight_def bmHeight_def split: option.splits)
  show ?thesis
    using buildMask_Inr [of ns lines m] buildMask_returns [of ns lines m] bmSvg_unpaired [of ns m lines]
    by (auto simp: h)
qed

lemma exMetrics_eval:
  "exMetrics = \<lparr>fontSize = 16, lineHeight = 112 / 5, fontFamily = lit ''serif'',
     fontWeight = lit ''400'', width = 6, height = Some (224 / 5)\<rparr>"
  by (simp add: ex_defs getMetrics_def orNum_def orStr_def Let_def lit_def)

theorem buildMask_height_witness:
  "buildMask (numberToString exHost) [] (exMetrics\<lparr>height := None\<rparr>)
     = Inr (projr (buildMask (numberToString exHost) [] (exMetrics\<lparr>height := None\<rparr>))) \<and>
   maskHeight (projr (buildMask (numberToString exHost) [] (exMetrics\<lparr>height := None\<rparr>))) = 112 / 5 \<and>
   bmLineHeight (exMetrics\<lparr>height := None\<rparr>) = 112 / 5"
proof -
  let ?m = "exMetrics\<lparr>height := None\<rparr>"
  let ?ns = "numberToString exHost"
  have e: "\<not> explicitHeight ?m" by (simp add: explicitHeight_def)
  have s: "markupSafe ?ns ?m"
    by (simp add: markupSafe_def exMetrics_eval exHost_def lit_unpaired)
  have l: "bmLineHeight ?m = 112 / 5"
    by (simp add: bmLineHeight_def exMetrics_eval orNum_def)
  from buildMask_height [OF e, of ?ns "[]"] s
  obtain img where i: "buildMask ?ns [] ?m = Inr img" and "maskHeight img = bmLineHeight ?m"
    using l by auto
  then show ?thesis using l by simp
qed



section \<open>wrapLines\<close>

lemma concat_splitWhite: "concat (splitWhite s) = s"
proof (induction s rule: splitWhite.induct)
  case (1 s)
  show ?case
  proof (cases "dropWhile (\<lambda>c. \<not> isWhite c) s = []")
    case True
    then have "takeWhile (\<lambda>c. \<not> isWhite c) s = s"
      by (metis append_Nil2 takeWhile_dropWhile_id)
    with True show ?thesis by (subst splitWhite.simps) simp
  next
    case False
    with 1 have "concat (splitWhite (dropWhile isWhite (dropWhile (\<lambda>c. \<not> isWhite c) s)))
        = dropWhile isWhite (dropWhile (\<lambda>c. \<not> isWhite c) s)"
      by simp
    with False show ?thesis by (subst splitWhite.simps) simp
  qed
qed

lemma concat_codePoints: "concat (codePoints s) = s"
  by (induction s rule: codePoints.induct) simp_all

lemma concat_tokenize: "concat (tokenize s) = s"
  by (simp add: tokenize_def concat_splitWhite concat_codePoints)

lemma nonWhite_append: "nonWhite (a @ b) = nonWhite a @ nonWhite b"
  by (simp add: nonWhite_def)

lemma nonWhite_Nil: "nonWhite [] = []"
  by (simp add: nonWhite_def)

lemma nonWhite_trimStart: "nonWhite (trimStart t) = nonWhite t"
  unfolding nonWhite_def trimStart_def by (induction t) simp_all

lemma nonWhite_white: "\<forall>c \<in> set w. isWhite c \<Longrightarrow> nonWhite w = []"
  unfolding nonWhite_def by (induction w) simp_all

lemma concat_consFirst: "concat (consFirst c ls) = c # concat ls"
  by (cases ls) simp_all

lemma white_LF_CR_SP: "isWhite LF" "isWhite CR" "isWhite SP"
  by (simp_all add: isWhite_def char_defs)

lemma nonWhite_splitNewline: "nonWhite (concat (splitNewline t)) = nonWhite t"
  by (induction t rule: splitNewline.induct)
     (auto simp: concat_consFirst nonWhite_def white_LF_CR_SP)

lemma nonWhite_join: "\<forall>c \<in> set sep. isWhite c \<Longrightarrow> nonWhite (join sep ls) = nonWhite (concat ls)"
  by (induction sep ls rule: join.induct) (simp_all add: nonWhite_append nonWhite_white nonWhite_Nil)

lemma wrapTokens_prefix:
  "wrapTokens ms mw ts (res, cur) =
     (res @ fst (wrapTokens ms mw ts ([], cur)), snd (wrapTokens ms mw ts ([], cur)))"
proof (induction ts arbitrary: res cur)
  case Nil show ?case by simp
next
  case (Cons t ts)
  show ?case
  proof (cases "t \<noteq> [] \<and> ms (cur @ t) > mw \<and> length (trim cur) > 0")
    case True
    then show ?thesis
      using Cons.IH [of "res @ [cur]" "trimStart t"] Cons.IH [of "[cur]" "trimStart t"]
      by simp
  next
    case False
    then show ?thesis
      using Cons.IH [of res cur] Cons.IH [of res "cur @ t"] by auto
  qed
qed


lemma wrapTokens_nonWhite:
  "wrapTokens ms mw ts (res, cur) = (res', cur') \<Longrightarrow>
   nonWhite (concat res' @ cur') = nonWhite (concat res @ cur @ concat ts)"
proof (induction ts arbitrary: res cur)
  case Nil then show ?case by simp
next
  case (Cons t ts)
  show ?case
  proof (cases "t \<noteq> [] \<and> ms (cur @ t) > mw \<and> length (trim cur) > 0")
    case True
    with Cons.prems have "wrapTokens ms mw ts (res @ [cur], trimStart t) = (res', cur')" by simp
    from Cons.IH [OF this] show ?thesis by (simp add: nonWhite_append nonWhite_trimStart)
  next
    case False
    with Cons.prems have "wrapTokens ms mw ts (res, cur @ t) = (res', cur')
        \<or> (t = [] \<and> wrapTokens ms mw ts (res, cur) = (res', cur'))"
      by (auto split: if_splits)
    then show ?thesis using Cons.IH [of res "cur @ t"] Cons.IH [of res cur] by auto
  qed
qed

lemma tokenLines_nonWhite: "nonWhite (concat (tokenLines ms mw ts)) = nonWhite (concat ts)"
proof -
  obtain r c where w: "wrapTokens ms mw ts ([], []) = (r, c)" by (cases "wrapTokens ms mw ts ([], [])")
  from wrapTokens_nonWhite [OF this] show ?thesis by (simp add: tokenLines_def w)
qed

lemma wrapSegment_nonWhite: "nonWhite (concat (wrapSegment ms mw seg)) = nonWhite seg"
  by (simp add: wrapSegment_def tokenLines_nonWhite concat_tokenize nonWhite_Nil)

lemma wrapRawLines_concat:
  "wrapRawLines ms mw segs res = res @ concat (map (wrapSegment ms mw) segs)"
proof (induction segs arbitrary: res)
  case Nil show ?case by simp
next
  case (Cons seg segs)
  show ?case
  proof (cases "seg = []")
    case True
    then show ?thesis by (simp add: Cons.IH wrapSegment_def)
  next
    case False
    obtain r c where w: "wrapTokens ms mw (tokenize seg) ([], []) = (r, c)"
      by (cases "wrapTokens ms mw (tokenize seg) ([], [])")
    then have "wrapTokens ms mw (tokenize seg) (res, []) = (res @ r, c)"
      using wrapTokens_prefix [of ms mw "tokenize seg" res "[]"] by simp
    with False w show ?thesis by (simp add: Cons.IH wrapSegment_def tokenLines_def)
  qed
qed

lemma wrapLines_eq:
  "wrapLines h text m =
     filter (\<lambda>line. line \<noteq> [] \<or> [] \<in> set (splitNewline text))
       (concat (map (wrapSegment (measureText h (wlFont h m)) (wlMaxWidth m)) (splitNewline text)))"
  by (simp add: wrapLines_def wrapRawLines_concat Let_def)

lemma concat_filter_nonempty: "concat (filter (\<lambda>l. l \<noteq> [] \<or> b) ls) = concat ls"
  by (induction ls) auto

lemma nonWhite_concat_map:
  "(\<And>x. nonWhite (concat (f x)) = nonWhite x) \<Longrightarrow>
   nonWhite (concat (concat (map f xs))) = nonWhite (concat xs)"
  by (induction xs) (simp_all add: nonWhite_append)

text \<open>
  C2. The lines that \<open>wrapLines\<close> returns, joined with spaces, have the same characters
  that are not white space as the input text, in the same order: none is dropped and none
  is duplicated.
\<close>

theorem wrapLines_preserves_characters:
  "nonWhite (join [SP] (wrapLines h text m)) = nonWhite text"
proof -
  have "nonWhite (join [SP] (wrapLines h text m)) = nonWhite (concat (wrapLines h text m))"
    by (rule nonWhite_join) (simp add: white_LF_CR_SP)
  also have "\<dots> = nonWhite (concat (concat (map (wrapSegment (measureText h (wlFont h m)) (wlMaxWidth m)) (splitNewline text))))"
    by (simp only: wrapLines_eq concat_filter_nonempty)
  also have "\<dots> = nonWhite (concat (splitNewline text))"
    by (rule nonWhite_concat_map) (rule wrapSegment_nonWhite)
  also have "\<dots> = nonWhite text" by (rule nonWhite_splitNewline)
  finally show ?thesis .
qed

text \<open>
  C3. \<open>wrapLines\<close> wraps each segment between newlines on its own: its result is the
  lines of the segments one after the other, from which empty lines are dropped only when
  the input has no empty segment. An empty segment gives exactly one empty line, and that
  line stands between the lines of the segments before it and the lines of the segments
  after it.
\<close>

theorem wrapLines_segments:
  "wrapLines h text m =
     filter (\<lambda>line. line \<noteq> [] \<or> [] \<in> set (splitNewline text))
       (concat (map (wrapSegment (measureText h (wlFont h m)) (wlMaxWidth m)) (splitNewline text))) \<and>
   wrapSegment (measureText h (wlFont h m)) (wlMaxWidth m) [] = [[]] \<and>
   (splitNewline text = before @ [] # after \<longrightarrow>
      wrapLines h text m =
        concat (map (wrapSegment (measureText h (wlFont h m)) (wlMaxWidth m)) before)
        @ [[]]
        @ concat (map (wrapSegment (measureText h (wlFont h m)) (wlMaxWidth m)) after))"
  by (simp add: wrapLines_eq wrapSegment_def)

lemma ex_measure: "measureText exHost f t = real (length t)"
  by (simp add: exHost_def)

lemma ex_maxWidth: "wlMaxWidth exMetrics = 2"
  by (simp add: wlMaxWidth_def exMetrics_eval)

lemmas eval_simps = lit_def char_defs isWhite_def trim_def trimStart_def trimEnd_def
  tokenize_def splitWhite.simps wrapSegment_def tokenLines_def

lemma splitNewline_single: "LF \<notin> set t \<Longrightarrow> splitNewline t = [t]"
  by (induction t rule: splitNewline.induct) auto

lemma wrapTokens_fits:
  "\<forall>p. prefix p (cur @ concat ts) \<longrightarrow> ms p \<le> mw \<Longrightarrow>
   wrapTokens ms mw ts (res, cur) = (res, cur @ concat ts)"
proof (induction ts arbitrary: cur)
  case Nil show ?case by simp
next
  case (Cons t ts)
  have "prefix (cur @ t) (cur @ concat (t # ts))" by simp
  with Cons.prems have le: "ms (cur @ t) \<le> mw" by blast
  from Cons.prems have "\<forall>p. prefix p ((cur @ t) @ concat ts) \<longrightarrow> ms p \<le> mw" by simp
  from Cons.IH [OF this] have a: "wrapTokens ms mw ts (res, cur @ t) = (res, cur @ t @ concat ts)"
    by simp
  show ?case
  proof (cases "t = []")
    case True with a show ?thesis by simp
  next
    case False with a le show ?thesis by simp
  qed
qed

text \<open>
  C1, amended. The width that counts is \<open>maxWidth = max(width - 4, 1)\<close>, not the width of
  the container, and \<open>wrapLines\<close> does not trim: for a text that is not empty, has no
  newline, and of which no prefix measures more than \<open>maxWidth\<close>, \<open>wrapLines\<close> returns
  exactly one line, the text itself. \<open>apply\<close> trims the text before it calls
  \<open>wrapLines\<close>.
\<close>

theorem wrapLines_single_line:
  assumes "text \<noteq> []" and "LF \<notin> set text"
    and "\<forall>p. prefix p text \<longrightarrow> measureText h (wlFont h m) p \<le> wlMaxWidth m"
  shows "wlMaxWidth m = max (width m - 4) 1 \<and> wrapLines h text m = [text]"
proof -
  from assms(3) have "\<forall>p. prefix p ([] @ concat (tokenize text)) \<longrightarrow>
      measureText h (wlFont h m) p \<le> wlMaxWidth m"
    by (simp add: concat_tokenize)
  from wrapTokens_fits [OF this, of "[]"]
  have "wrapSegment (measureText h (wlFont h m)) (wlMaxWidth m) text = [text]"
    using assms(1) by (simp add: wrapSegment_def tokenLines_def concat_tokenize)
  with assms(1,2) show ?thesis
    by (simp add: wrapLines_eq splitNewline_single wlMaxWidth_def)
qed

theorem wrapLines_single_line_witness:
  "lit ''a b'' \<noteq> [] \<and> LF \<notin> set (lit ''a b'') \<and>
   wlMaxWidth (exMetrics\<lparr>width := 7\<rparr>) = 3 \<and>
   wrapLines exHost (lit ''a b'') (exMetrics\<lparr>width := 7\<rparr>) = [lit ''a b'']"
proof -
  have a: "lit ''a b'' \<noteq> []" and b: "LF \<notin> set (lit ''a b'')"
    by (simp_all add: lit_def char_defs)
  have w: "wlMaxWidth (exMetrics\<lparr>width := 7\<rparr>) = 3" by (simp add: wlMaxWidth_def)
  have "length p \<le> 3" if "prefix p (lit ''a b'')" for p
    using prefix_length_le [OF that] by (simp add: lit_def)
  then have c: "\<forall>p. prefix p (lit ''a b'') \<longrightarrow>
      measureText exHost (wlFont exHost (exMetrics\<lparr>width := 7\<rparr>)) p
        \<le> wlMaxWidth (exMetrics\<lparr>width := 7\<rparr>)"
    by (simp add: ex_measure w)
  from wrapLines_single_line [OF a b c] a b w show ?thesis by simp
qed

text \<open>
  C1 as stated fails: with one pixel per character, \<open>ab cd\<close> is five pixels wide and the
  container six, yet \<open>maxWidth\<close> is two and the text is wrapped into two lines.
\<close>

theorem wrapLines_single_line_counterexample:
  "lit ''ab cd'' \<noteq> [] \<and> LF \<notin> set (lit ''ab cd'') \<and>
   measureText exHost (wlFont exHost exMetrics) (lit ''ab cd'') < width exMetrics \<and>
   wrapLines exHost (lit ''ab cd'') exMetrics = [lit ''ab'', lit ''cd''] \<and>
   wrapLines exHost (lit ''ab cd'') exMetrics \<noteq> [trim (lit ''ab cd'')]"
proof -
  have "wrapLines exHost (lit ''ab cd'') exMetrics = [lit ''ab'', lit ''cd'']"
    by (simp add: wrapLines_eq ex_measure ex_maxWidth eval_simps)
  moreover have "measureText exHost (wlFont exHost exMetrics) (lit ''ab cd'') < width exMetrics"
    by (simp add: ex_measure exMetrics_eval lit_def)
  ultimately show ?thesis by (simp add: lit_def char_defs)
qed

lemma trim_empty_iff: "trim s = [] \<longleftrightarrow> (\<forall>c \<in> set s. isWhite c)"
proof -
  have "trim s = [] \<longleftrightarrow> (\<forall>c \<in> set (dropWhile isWhite s). isWhite c)"
    by (simp add: trim_def trimStart_def trimEnd_def dropWhile_eq_Nil_conv)
  also have "\<dots> \<longleftrightarrow> (\<forall>c \<in> set s. isWhite c)"
  proof
    assume a: "\<forall>c \<in> set (dropWhile isWhite s). isWhite c"
    have "dropWhile isWhite s = []"
    proof (rule ccontr)
      assume n: "dropWhile isWhite s \<noteq> []"
      then have "\<not> isWhite (hd (dropWhile isWhite s))" by (rule hd_dropWhile)
      moreover from n have "hd (dropWhile isWhite s) \<in> set (dropWhile isWhite s)" by simp
      ultimately show False using a by blast
    qed
    then show "\<forall>c \<in> set s. isWhite c" by (simp add: dropWhile_eq_Nil_conv)
  next
    assume "\<forall>c \<in> set s. isWhite c"
    then show "\<forall>c \<in> set (dropWhile isWhite s). isWhite c"
      by (blast dest: set_dropWhileD)
  qed
  finally show ?thesis .
qed






theorem wrapLines_preserves_characters_witness:
  "wrapLines exHost (lit ''ab cd\<newline>e'') exMetrics = [lit ''ab'', lit ''cd'', lit ''e''] \<and>
   nonWhite (join [SP] (wrapLines exHost (lit ''ab cd\<newline>e'') exMetrics)) = lit ''abcde'' \<and>
   nonWhite (lit ''ab cd\<newline>e'') = lit ''abcde''"
proof -
  have "wrapLines exHost (lit ''ab cd\<newline>e'') exMetrics = [lit ''ab'', lit ''cd'', lit ''e'']"
    by (simp add: wrapLines_eq ex_measure ex_maxWidth eval_simps)
  moreover have "nonWhite (lit ''ab cd\<newline>e'') = lit ''abcde''"
    by (simp add: nonWhite_def lit_def isWhite_def)
  ultimately show ?thesis
    using wrapLines_preserves_characters [of exHost "lit ''ab cd\<newline>e''" exMetrics] by simp
qed

theorem wrapLines_segments_witness:
  "splitNewline (lit ''a\<newline>\<newline>b'') = [lit ''a''] @ [] # [lit ''b''] \<and>
   wrapLines exHost (lit ''a\<newline>\<newline>b'') exMetrics = [lit ''a'', [], lit ''b'']"
proof -
  have s: "splitNewline (lit ''a\<newline>\<newline>b'') = [lit ''a''] @ [] # [lit ''b'']"
    by (simp add: lit_def char_defs)
  have w: "\<And>c. wrapSegment (measureText exHost (wlFont exHost exMetrics)) (wlMaxWidth exMetrics) [c] = [[c]]"
    by (simp add: ex_measure ex_maxWidth wrapSegment_def tokenLines_def tokenize_def
        splitWhite.simps trim_def trimStart_def trimEnd_def)
  from wrapLines_segments [of exHost "lit ''a\<newline>\<newline>b''" exMetrics "[lit ''a'']" "[lit ''b'']"] s
  have "wrapLines exHost (lit ''a\<newline>\<newline>b'') exMetrics =
      concat (map (wrapSegment (measureText exHost (wlFont exHost exMetrics)) (wlMaxWidth exMetrics)) [lit ''a''])
      @ [[]]
      @ concat (map (wrapSegment (measureText exHost (wlFont exHost exMetrics)) (wlMaxWidth exMetrics)) [lit ''b''])"
    by blast
  then have "wrapLines exHost (lit ''a\<newline>\<newline>b'') exMetrics = [lit ''a'', [], lit ''b'']"
    by (simp add: lit_def w)
  with s show ?thesis by simp
qed

section \<open>The markup of the mask\<close>












section \<open>Reading the data URL back\<close>















































section \<open>Words wider than a line\<close>



section \<open>apply\<close>

lemma ex_ids:
  "byId exPage (lit ''bright-container'') = Some exContainer"
  "byId exPage (lit ''bright-content'') = Some exContent"
  by (simp_all add: exPage_def lit_def)

lemma ex_inspect: "getMetrics (inspect exHost p i) = exMetrics"
  by (simp add: exHost_def exMetrics_def)

lemma resolve_default:
  "containerId opts = None \<Longrightarrow> resolveContainerId opts = lit ''bright-container''"
  "contentId opts = None \<Longrightarrow> resolveContentId opts = lit ''bright-content''"
  by (simp_all add: resolveContainerId_def resolveContentId_def)


lemma setMaskStyle_text:
  "map_option textContent (byId (setMaskStyle h cid img p) i) = map_option textContent (byId p i)"
  "canvas (setMaskStyle h cid img p) = canvas p"
  "console (setMaskStyle h cid img p) = console p"
  by (auto simp: setMaskStyle_def split: option.splits)

lemma renderMask_text:
  "map_option textContent (byId (snd (renderMask h cid lines p)) i) = map_option textContent (byId p i)"
  "canvas (snd (renderMask h cid lines p)) = canvas p"
  "console (snd (renderMask h cid lines p)) = console p"
  by (simp_all add: renderMask_def setMaskStyle_text split: sum.splits)

lemma setTextContent_text:
  "byId p cid = Some content \<Longrightarrow>
   byId (setTextContent cid t p) cid = Some (content\<lparr>textContent := t\<rparr>)"
  "canvas (setTextContent cid t p) = canvas p"
  "console (setTextContent cid t p) = console p"
  by (auto simp: setTextContent_def split: option.splits)




lemma applyOptions_manual:
  assumes "byId p (resolveContainerId opts) = Some container"
    and "byId p (resolveContentId opts) = Some content"
    and "textLines opts = Given source"
    and "normalizeLines source \<noteq> []"
  shows "applyOptions h opts p =
     renderMask h (resolveContentId opts) (normalizeLines source)
       (setTextContent (resolveContentId opts) (join [LF] (normalizeLines source)) p)"
  using assms by (simp add: applyOptions_def Let_def)

lemma applyOptions_wrapped:
  assumes "byId p (resolveContainerId opts) = Some container"
    and "byId p (resolveContentId opts) = Some content"
    and "textLines opts = Given source"
    and "normalizeLines source = []"
    and "trim (pickSourceText container content) \<noteq> []"
  shows "applyOptions h opts p =
     renderMask h (resolveContentId opts)
       (wrapLines h (trim (pickSourceText container content))
          (getMetrics (inspect h p (resolveContentId opts))))
       (setTextContent (resolveContentId opts)
          (join [LF] (wrapLines h (trim (pickSourceText container content))
             (getMetrics (inspect h p (resolveContentId opts)))))
          (measureContext p))"
  using assms by (simp add: applyOptions_def Let_def)






lemma splitLinesPipe_plain:
  "LF \<notin> set a \<Longrightarrow> PIPE \<notin> set a \<Longrightarrow> splitLinesPipe a = [a]"
  by (induction a rule: splitLinesPipe.induct) auto

lemma splitLinesPipe_PIPE:
  "LF \<notin> set a \<Longrightarrow> PIPE \<notin> set a \<Longrightarrow> splitLinesPipe (a @ PIPE # b) = a # splitLinesPipe b"
proof (induction a)
  case Nil
  show ?case by (cases b) (simp_all add: char_defs)
next
  case (Cons c a)
  then have ih: "splitLinesPipe (a @ PIPE # b) = a # splitLinesPipe b" by simp
  obtain d cs where dc: "a @ PIPE # b = d # cs" by (cases "a @ PIPE # b") auto
  with Cons.prems have "d \<noteq> LF" by (cases a) (auto simp: char_defs)
  with Cons.prems dc ih show ?case by auto
qed

lemma splitLinesPipe_CRLF:
  "LF \<notin> set a \<Longrightarrow> PIPE \<notin> set a \<Longrightarrow>
   splitLinesPipe (a @ CR # LF # b) = a # splitLinesPipe b"
proof (induction a)
  case Nil
  show ?case by simp
next
  case (Cons c a)
  then have ih: "splitLinesPipe (a @ CR # LF # b) = a # splitLinesPipe b" by simp
  obtain d cs where dc: "a @ CR # LF # b = d # cs" by (cases "a @ CR # LF # b") auto
  with Cons.prems have "d \<noteq> LF" by (cases a) (auto simp: char_defs)
  with Cons.prems dc ih show ?case by auto
qed

lemma splitLinesPipe_LF:
  "LF \<notin> set a \<Longrightarrow> PIPE \<notin> set a \<Longrightarrow> a = [] \<or> last a \<noteq> CR \<Longrightarrow>
   splitLinesPipe (a @ LF # b) = a # splitLinesPipe b"
proof (induction a)
  case Nil
  show ?case by (cases b) (simp_all add: char_defs)
next
  case (Cons c a)
  show ?case
  proof (cases a)
    case Nil
    with Cons.prems have "c \<noteq> CR" "c \<noteq> LF" "c \<noteq> PIPE" by auto
    moreover have "splitLinesPipe (LF # b) = [] # splitLinesPipe b"
      by (cases b) (simp_all add: char_defs)
    ultimately show ?thesis using Nil by simp
  next
    case (Cons d a')
    with Cons.prems Cons.IH have ih: "splitLinesPipe (a @ LF # b) = a # splitLinesPipe b"
      by (simp split: if_splits)
    from Cons Cons.prems have "d \<noteq> LF" "c \<noteq> LF" "c \<noteq> PIPE" by auto
    with Cons ih show ?thesis by auto
  qed
qed

lemma trim_snoc_white: "isWhite w \<Longrightarrow> trim (x @ [w]) = trim x"
proof (cases "\<forall>c \<in> set x. isWhite c")
  case True
  assume "isWhite w"
  with True have "trim (x @ [w]) = []" "trim x = []" by (simp_all add: trim_empty_iff)
  then show ?thesis by simp
next
  case False
  assume w: "isWhite w"
  from False obtain c where "c \<in> set x" "\<not> isWhite c" by blast
  then have "dropWhile isWhite (x @ [w]) = dropWhile isWhite x @ [w]"
    by (rule dropWhile_append1)
  with w show ?thesis by (simp add: trim_def trimStart_def trimEnd_def)
qed

lemma normalizeLines_piece:
  "LF \<notin> set a \<Longrightarrow> PIPE \<notin> set a \<Longrightarrow>
   normalizeLines (Text a) = (if trim a = [] then [] else [trim a])"
  by (cases "a = []") (simp_all add: normalizeLines_def splitLinesPipe_plain trim_Nil)

lemma normalizeLines_rest:
  "filter (\<lambda>l. l \<noteq> []) (map trim (splitLinesPipe b)) = normalizeLines (Text b)"
  by (cases "b = []") (simp_all add: normalizeLines_def trim_Nil)

lemma normalizeLines_PIPE:
  assumes "LF \<notin> set a" "PIPE \<notin> set a"
  shows "normalizeLines (Text (a @ PIPE # b)) = normalizeLines (Text a) @ normalizeLines (Text b)"
proof -
  have "normalizeLines (Text (a @ PIPE # b))
      = filter (\<lambda>l. l \<noteq> []) (map trim (splitLinesPipe (a @ PIPE # b)))"
    by (simp add: normalizeLines_def)
  also have "\<dots> = (if trim a = [] then [] else [trim a])
      @ filter (\<lambda>l. l \<noteq> []) (map trim (splitLinesPipe b))"
    by (simp add: splitLinesPipe_PIPE assms)
  finally show ?thesis by (simp only: normalizeLines_piece [OF assms] normalizeLines_rest)
qed

lemma normalizeLines_LF:
  assumes "LF \<notin> set a" "PIPE \<notin> set a"
  shows "normalizeLines (Text (a @ LF # b)) = normalizeLines (Text a) @ normalizeLines (Text b)"
proof -
  have n: "normalizeLines (Text (a @ LF # b))
      = filter (\<lambda>l. l \<noteq> []) (map trim (splitLinesPipe (a @ LF # b)))"
    by (simp add: normalizeLines_def)
  have "filter (\<lambda>l. l \<noteq> []) (map trim (splitLinesPipe (a @ LF # b)))
      = (if trim a = [] then [] else [trim a])
        @ filter (\<lambda>l. l \<noteq> []) (map trim (splitLinesPipe b))"
  proof (cases "a = [] \<or> last a \<noteq> CR")
    case True
    then show ?thesis by (simp add: splitLinesPipe_LF assms)
  next
    case False
    then obtain a' where a: "a = a' @ [CR]" by (metis append_butlast_last_id)
    with assms have "LF \<notin> set a'" "PIPE \<notin> set a'" by auto
    then have "splitLinesPipe (a' @ CR # LF # b) = a' # splitLinesPipe b"
      by (rule splitLinesPipe_CRLF)
    moreover have "trim a = trim a'" unfolding a by (rule trim_snoc_white) (rule white_LF_CR_SP)
    ultimately show ?thesis by (simp add: a)
  qed
  with n show ?thesis by (simp only: normalizeLines_piece [OF assms] normalizeLines_rest)
qed

lemma normalizeLines_Cons:
  "normalizeLines (Lines (l # ls)) = (if trim l = [] then [] else [trim l]) @ normalizeLines (Lines ls)"
  by (simp add: normalizeLines_def)

lemma measureText_irrelevant:
  "renderMask (h\<lparr>measureText := f\<rparr>) cid lines p = renderMask h cid lines p"
proof -
  have c: "cssSize (h\<lparr>measureText := f\<rparr>) img = cssSize h img" for img
    by (simp add: cssSize_def)
  have "setMaskStyle (h\<lparr>measureText := f\<rparr>) cid img q = setMaskStyle h cid img q" for img q
    unfolding setMaskStyle_def c ..
  then show ?thesis by (simp add: renderMask_def split: sum.splits)
qed


text \<open>
  C7, amended. With both elements present: when \<open>options.textLines\<close> normalizes to at
  least one line, \<open>apply\<close> writes those lines, joined by newlines, to the content element
  and hands them to \<open>buildMask\<close>, without wrapping: the result does not depend on the
  measuring function and the measuring canvas is not touched. When it normalizes to no
  line and the page holds text, \<open>apply\<close> wraps that text instead, writes the wrapped lines
  and builds the mask from them. A string is split at every pipe and at every line feed,
  with a carriage return before the line feed going with it; a list is taken element by
  element without splitting; every piece is trimmed and the empty ones are dropped. For
  the list \<open>Line one\<close>, \<open>Line two\<close> the lines are exactly these two.
\<close>

theorem apply_manual_lines:
  assumes "byId p (resolveContainerId opts) = Some container"
    and "byId p (resolveContentId opts) = Some content"
    and "textLines opts = Given source"
  shows
   "(normalizeLines source \<noteq> [] \<longrightarrow>
       apply_fn h (Options opts) p =
         (case buildMask (numberToString h) (normalizeLines source)
                 (maskMetrics
                    (getMetrics (inspect h
                       (setTextContent (resolveContentId opts)
                          (join [LF] (normalizeLines source)) p)
                       (resolveContentId opts)))
                    (normalizeLines source)) of
            Inl e \<Rightarrow>
              (Some e, setTextContent (resolveContentId opts) (join [LF] (normalizeLines source)) p)
          | Inr img \<Rightarrow>
              (None, setMaskStyle h (resolveContentId opts) img
                       (setTextContent (resolveContentId opts)
                          (join [LF] (normalizeLines source)) p))) \<and>
       apply_fn (h\<lparr>measureText := f\<rparr>) (Options opts) p = apply_fn h (Options opts) p \<and>
       canvas (snd (apply_fn h (Options opts) p)) = canvas p \<and>
       map_option textContent (byId (snd (apply_fn h (Options opts) p)) (resolveContentId opts))
         = Some (join [LF] (normalizeLines source))) \<and>
    (normalizeLines source = [] \<and> trim (pickSourceText container content) \<noteq> [] \<longrightarrow>
       apply_fn h (Options opts) p =
         renderMask h (resolveContentId opts)
           (wrapLines h (trim (pickSourceText container content))
              (getMetrics (inspect h p (resolveContentId opts))))
           (setTextContent (resolveContentId opts)
              (join [LF] (wrapLines h (trim (pickSourceText container content))
                 (getMetrics (inspect h p (resolveContentId opts)))))
              (measureContext p)) \<and>
       canvas (snd (apply_fn h (Options opts) p)) = True \<and>
       map_option textContent (byId (snd (apply_fn h (Options opts) p)) (resolveContentId opts))
         = Some (join [LF] (wrapLines h (trim (pickSourceText container content))
                   (getMetrics (inspect h p (resolveContentId opts)))))) \<and>
    (LF \<notin> set a \<and> PIPE \<notin> set a \<longrightarrow>
       normalizeLines (Text (a @ PIPE # b)) = normalizeLines (Text a) @ normalizeLines (Text b) \<and>
       normalizeLines (Text (a @ LF # b)) = normalizeLines (Text a) @ normalizeLines (Text b) \<and>
       normalizeLines (Text a) = (if trim a = [] then [] else [trim a])) \<and>
    normalizeLines (Lines (l # ls))
      = (if trim l = [] then [] else [trim l]) @ normalizeLines (Lines ls) \<and>
    normalizeLines (Lines []) = [] \<and>
    normalizeLines (Lines [lit ''Line one'', lit ''Line two''])
      = [lit ''Line one'', lit ''Line two'']"
proof -
  let ?cid = "resolveContentId opts"
  have manual: "normalizeLines source \<noteq> [] \<longrightarrow>
       apply_fn h (Options opts) p =
         (case buildMask (numberToString h) (normalizeLines source)
                 (maskMetrics
                    (getMetrics (inspect h
                       (setTextContent ?cid (join [LF] (normalizeLines source)) p) ?cid))
                    (normalizeLines source)) of
            Inl e \<Rightarrow> (Some e, setTextContent ?cid (join [LF] (normalizeLines source)) p)
          | Inr img \<Rightarrow>
              (None, setMaskStyle h ?cid img
                       (setTextContent ?cid (join [LF] (normalizeLines source)) p))) \<and>
       apply_fn (h\<lparr>measureText := f\<rparr>) (Options opts) p = apply_fn h (Options opts) p \<and>
       canvas (snd (apply_fn h (Options opts) p)) = canvas p \<and>
       map_option textContent (byId (snd (apply_fn h (Options opts) p)) ?cid)
         = Some (join [LF] (normalizeLines source))"
  proof
    assume ne: "normalizeLines source \<noteq> []"
    have a: "apply_fn h' (Options opts) p =
           renderMask h' ?cid (normalizeLines source)
             (setTextContent ?cid (join [LF] (normalizeLines source)) p)" for h'
      using applyOptions_manual [OF assms ne] by (simp add: apply_fn_def)
    have a1: "apply_fn h (Options opts) p =
         (case buildMask (numberToString h) (normalizeLines source)
                 (maskMetrics
                    (getMetrics (inspect h
                       (setTextContent ?cid (join [LF] (normalizeLines source)) p) ?cid))
                    (normalizeLines source)) of
            Inl e \<Rightarrow> (Some e, setTextContent ?cid (join [LF] (normalizeLines source)) p)
          | Inr img \<Rightarrow>
              (None, setMaskStyle h ?cid img
                       (setTextContent ?cid (join [LF] (normalizeLines source)) p)))"
      unfolding a renderMask_def ..
    have a2: "apply_fn (h\<lparr>measureText := f\<rparr>) (Options opts) p = apply_fn h (Options opts) p"
      by (simp only: a measureText_irrelevant)
    have a3: "canvas (snd (apply_fn h (Options opts) p)) = canvas p"
      by (simp only: a renderMask_text setTextContent_text)
    have a4: "map_option textContent (byId (snd (apply_fn h (Options opts) p)) ?cid)
           = Some (join [LF] (normalizeLines source))"
      by (simp add: a renderMask_text setTextContent_text(1) [OF assms(2)])
    from a1 a2 a3 a4 show "apply_fn h (Options opts) p =
         (case buildMask (numberToString h) (normalizeLines source)
                 (maskMetrics
                    (getMetrics (inspect h
                       (setTextContent ?cid (join [LF] (normalizeLines source)) p) ?cid))
                    (normalizeLines source)) of
            Inl e \<Rightarrow> (Some e, setTextContent ?cid (join [LF] (normalizeLines source)) p)
          | Inr img \<Rightarrow>
              (None, setMaskStyle h ?cid img
                       (setTextContent ?cid (join [LF] (normalizeLines source)) p))) \<and>
       apply_fn (h\<lparr>measureText := f\<rparr>) (Options opts) p = apply_fn h (Options opts) p \<and>
       canvas (snd (apply_fn h (Options opts) p)) = canvas p \<and>
       map_option textContent (byId (snd (apply_fn h (Options opts) p)) ?cid)
         = Some (join [LF] (normalizeLines source))"
      by (intro conjI)
  qed
  let ?ws = "wrapLines h (trim (pickSourceText container content)) (getMetrics (inspect h p ?cid))"
  have wrapped: "normalizeLines source = [] \<and> trim (pickSourceText container content) \<noteq> [] \<longrightarrow>
       apply_fn h (Options opts) p =
         renderMask h ?cid ?ws (setTextContent ?cid (join [LF] ?ws) (measureContext p)) \<and>
       canvas (snd (apply_fn h (Options opts) p)) = True \<and>
       map_option textContent (byId (snd (apply_fn h (Options opts) p)) ?cid)
         = Some (join [LF] ?ws)"
  proof
    assume "normalizeLines source = [] \<and> trim (pickSourceText container content) \<noteq> []"
    then have e: "normalizeLines source = []" and t: "trim (pickSourceText container content) \<noteq> []"
      by simp_all
    have w: "apply_fn h (Options opts) p =
         renderMask h ?cid ?ws (setTextContent ?cid (join [LF] ?ws) (measureContext p))"
      using applyOptions_wrapped [OF assms e t] by (simp add: apply_fn_def)
    have c: "byId (measureContext p) ?cid = Some content"
      using assms(2) by (simp add: measureContext_def)
    have w2: "canvas (snd (apply_fn h (Options opts) p)) = True"
      by (simp add: w renderMask_text setTextContent_text measureContext_def)
    have w3: "map_option textContent (byId (snd (apply_fn h (Options opts) p)) ?cid)
         = Some (join [LF] ?ws)"
      by (simp add: w renderMask_text setTextContent_text(1) [OF c])
    from w w2 w3 show "apply_fn h (Options opts) p =
         renderMask h ?cid ?ws (setTextContent ?cid (join [LF] ?ws) (measureContext p)) \<and>
       canvas (snd (apply_fn h (Options opts) p)) = True \<and>
       map_option textContent (byId (snd (apply_fn h (Options opts) p)) ?cid)
         = Some (join [LF] ?ws)"
      by (intro conjI)
  qed
  have norm: "LF \<notin> set a \<and> PIPE \<notin> set a \<longrightarrow>
       normalizeLines (Text (a @ PIPE # b)) = normalizeLines (Text a) @ normalizeLines (Text b) \<and>
       normalizeLines (Text (a @ LF # b)) = normalizeLines (Text a) @ normalizeLines (Text b) \<and>
       normalizeLines (Text a) = (if trim a = [] then [] else [trim a])"
    using normalizeLines_PIPE [of a b] normalizeLines_LF [of a b] normalizeLines_piece [of a]
    by blast
  have two: "normalizeLines (Lines [lit ''Line one'', lit ''Line two''])
           = [lit ''Line one'', lit ''Line two'']"
    by (simp add: normalizeLines_def lit_def trim_def trimStart_def trimEnd_def isWhite_def)
  have nil: "normalizeLines (Lines []) = []" by (simp add: normalizeLines_def)
  from manual wrapped norm normalizeLines_Cons [of l ls] nil two show ?thesis
    by (intro conjI)
qed


lemma exBlank_facts:
  "textLines exBlank = Given (Text (lit '' ''))"
  "normalizeLines (Text (lit '' '')) = []"
  "resolveContainerId exBlank = lit ''bright-container''"
  "resolveContentId exBlank = lit ''bright-content''"
  "trim (pickSourceText exContainer exContent) = lit ''ab cd''"
  "lit ''ab cd'' \<noteq> []"
  "wrapLines exHost (lit ''ab cd'') exMetrics = [lit ''ab'', lit ''cd'']"
  "join [LF] [lit ''ab'', lit ''cd''] = lit ''ab\<newline>cd''"
proof -
  show "textLines exBlank = Given (Text (lit '' ''))" by (simp add: exBlank_def)
  show "normalizeLines (Text (lit '' '')) = []"
    by (simp add: normalizeLines_def lit_def char_defs trim_def trimStart_def trimEnd_def
        isWhite_def)
  show "resolveContainerId exBlank = lit ''bright-container''"
    "resolveContentId exBlank = lit ''bright-content''"
    by (simp_all add: resolve_default exBlank_def)
  show "trim (pickSourceText exContainer exContent) = lit ''ab cd''"
    by (simp add: pickSourceText_def exContainer_def exContent_def lit_def trim_def trimStart_def
        trimEnd_def isWhite_def)
  show "lit ''ab cd'' \<noteq> []" by (simp add: lit_def)
  show "wrapLines exHost (lit ''ab cd'') exMetrics = [lit ''ab'', lit ''cd'']"
    by (simp add: wrapLines_eq ex_measure ex_maxWidth eval_simps)
  show "join [LF] [lit ''ab'', lit ''cd''] = lit ''ab\<newline>cd''"
    by (simp add: lit_def char_defs)
qed

theorem apply_manual_lines_witness:
  "normalizeLines (Lines [lit ''Line one'', lit ''Line two'']) = [lit ''Line one'', lit ''Line two''] \<and>
   map_option textContent (byId (snd (apply_fn exHost (Options exManual) exPage)) (lit ''bright-content''))
     = Some (lit ''Line one\<newline>Line two'') \<and>
   canvas (snd (apply_fn exHost (Options exManual) exPage)) = False \<and>
   normalizeLines (Text (lit ''a|b'')) = [lit ''a'', lit ''b''] \<and>
   map_option textContent (byId (snd (apply_fn exHost (Options exBlank) exPage)) (lit ''bright-content''))
     = Some (lit ''ab\<newline>cd'')"
proof -
  have g: "textLines exManual = Given (Lines [lit ''Line one'', lit ''Line two''])"
    by (simp add: exManual_def)
  have r: "resolveContainerId exManual = lit ''bright-container''"
    "resolveContentId exManual = lit ''bright-content''"
    by (simp_all add: resolve_default exManual_def)
  have i: "byId exPage (resolveContainerId exManual) = Some exContainer"
    "byId exPage (resolveContentId exManual) = Some exContent"
    by (simp_all only: r ex_ids)
  have j: "join [LF] [lit ''Line one'', lit ''Line two''] = lit ''Line one\<newline>Line two''"
    by (simp add: lit_def char_defs)
  have cv: "canvas exPage = False" by (simp add: exPage_def)
  note t = apply_manual_lines [OF i g, of exHost "measureText exHost" "lit ''a''" "lit ''b''" "[]" "[]"]
  from t have n: "normalizeLines (Lines [lit ''Line one'', lit ''Line two''])
      = [lit ''Line one'', lit ''Line two'']"
    by (elim conjE)
  then have ne: "normalizeLines (Lines [lit ''Line one'', lit ''Line two'']) \<noteq> []" by simp
  note u = t [THEN conjunct1, THEN mp, OF ne, THEN conjunct2, THEN conjunct2]
  from u [THEN conjunct1] u [THEN conjunct2]
  have m: "canvas (snd (apply_fn exHost (Options exManual) exPage)) = False"
    "map_option textContent (byId (snd (apply_fn exHost (Options exManual) exPage)) (lit ''bright-content''))
     = Some (lit ''Line one\<newline>Line two'')"
    by (simp_all only: r n j cv)
  have ab: "LF \<notin> set (lit ''a'') \<and> PIPE \<notin> set (lit ''a'')" by (simp add: lit_def char_defs)
  from t [THEN conjunct2, THEN conjunct2, THEN conjunct1, THEN mp, OF ab]
  have "normalizeLines (Text (lit ''a'' @ PIPE # lit ''b''))
      = normalizeLines (Text (lit ''a'')) @ normalizeLines (Text (lit ''b''))"
    by (elim conjE)
  moreover have "normalizeLines (Text (lit ''a'')) = [lit ''a'']"
    "normalizeLines (Text (lit ''b'')) = [lit ''b'']"
    by (simp_all add: normalizeLines_def lit_def char_defs trim_def trimStart_def trimEnd_def
        isWhite_def)
  moreover have "lit ''a'' @ PIPE # lit ''b'' = lit ''a|b''" by (simp add: lit_def char_defs)
  ultimately have p: "normalizeLines (Text (lit ''a|b'')) = [lit ''a'', lit ''b'']" by simp
  have i': "byId exPage (resolveContainerId exBlank) = Some exContainer"
    "byId exPage (resolveContentId exBlank) = Some exContent"
    by (simp_all only: exBlank_facts ex_ids)
  have w: "normalizeLines (Text (lit '' '')) = [] \<and> trim (pickSourceText exContainer exContent) \<noteq> []"
    by (simp only: exBlank_facts simp_thms)
  from apply_manual_lines [OF i' exBlank_facts(1), of exHost, THEN conjunct2, THEN conjunct1,
      THEN mp, OF w]
  have "map_option textContent
           (byId (snd (apply_fn exHost (Options exBlank) exPage)) (resolveContentId exBlank))
         = Some (join [LF] (wrapLines exHost (trim (pickSourceText exContainer exContent))
                   (getMetrics (inspect exHost exPage (resolveContentId exBlank)))))"
    by (elim conjE)
  then have b: "map_option textContent
      (byId (snd (apply_fn exHost (Options exBlank) exPage)) (lit ''bright-content''))
     = Some (lit ''ab\<newline>cd'')"
    by (simp only: exBlank_facts ex_inspect)
  from n m p b show ?thesis by (intro conjI)
qed

text \<open>
  C7 as stated fails: \<open>textLines\<close> given as a string of one space normalizes to no line,
  so \<open>apply\<close> takes the text of the content element and wraps it.
\<close>

theorem apply_manual_lines_counterexample:
  "textLines exBlank = Given (Text (lit '' '')) \<and>
   map_option textContent (byId (snd (apply_fn exHost (Options exBlank) exPage)) (lit ''bright-content''))
     = Some (lit ''ab\<newline>cd'') \<and>
   canvas exPage = False \<and>
   canvas (snd (apply_fn exHost (Options exBlank) exPage)) = True"
proof -
  have i: "byId exPage (resolveContainerId exBlank) = Some exContainer"
    "byId exPage (resolveContentId exBlank) = Some exContent"
    by (simp_all only: exBlank_facts ex_ids)
  have t': "trim (pickSourceText exContainer exContent) \<noteq> []"
    by (simp only: exBlank_facts simp_thms)
  have "applyOptions exHost exBlank exPage =
      renderMask exHost (lit ''bright-content'') [lit ''ab'', lit ''cd'']
        (setTextContent (lit ''bright-content'') (lit ''ab\<newline>cd'') (measureContext exPage))"
    using applyOptions_wrapped [OF i exBlank_facts(1,2) t', of exHost]
    by (simp only: exBlank_facts ex_inspect)
  moreover have "byId (measureContext exPage) (lit ''bright-content'') = Some exContent"
    by (simp add: measureContext_def ex_ids)
  ultimately show ?thesis
    by (simp add: apply_fn_def renderMask_text setTextContent_text measureContext_def)
       (simp add: exBlank_def exPage_def)
qed

end
